theory Spec2Isabelle
  imports Complex_Main "HOL-Library.Char_ord" "HOL-Library.List_Lexorder"
begin

section \<open>Data model of \<^verbatim>\<open>src/App.js\<close>\<close>

text \<open>
  JavaScript strings are modelled as \<^typ>\<open>string\<close>; a character stands for the code unit
  of the same number, and the order of \<^theory_text>\<open>Char_ord\<close> with the lexicographic
  order on lists is the code-unit order that \<^verbatim>\<open>Array.prototype.sort()\<close> applies
  when it is called without a comparator.

  A product is one element of \<^verbatim>\<open>productList\<close>: the document identifier merged
  with the document's fields. A field that the document does not carry is \<^term>\<open>None\<close>
  (\<^verbatim>\<open>undefined\<close>); \<^verbatim>\<open>available\<close> holds the truthiness of the field.
\<close>

record product =
  pid :: string
  name :: string
  description :: "string option"
  price :: "rat option"
  category :: "string option"
  available :: bool

subsection \<open>Configuration\<close>

text \<open>The value space of \<^verbatim>\<open>JSON.parse\<close>.\<close>

datatype json =
    JNull
  | JBool bool
  | JNum rat
  | JStr string
  | JArr "json list"
  | JObj "(string \<times> json) list"

definition FALLBACK_FIREBASE_CONFIG :: json where
  "FALLBACK_FIREBASE_CONFIG = JObj
     [(''apiKey'', JStr ''MOCK_API_KEY''),
      (''authDomain'', JStr ''mock-auth-domain.firebaseapp.com''),
      (''projectId'', JStr ''mock-project-id''),
      (''storageBucket'', JStr ''mock-storage-bucket.appspot.com''),
      (''messagingSenderId'', JStr ''MOCK_SENDER_ID''),
      (''appId'', JStr ''MOCK_APP_ID'')]"

definition DEFAULT_APP_ID :: string where
  "DEFAULT_APP_ID = ''fresh-eats-admin-dev''"

text \<open>
  \<^verbatim>\<open>firebaseConfig\<close> is a reference: either the module's own fallback object or a
  fresh object made by \<^verbatim>\<open>JSON.parse\<close>. \<^verbatim>\<open>isFallback\<close> compares references
  with \<^verbatim>\<open>===\<close>, so a parsed object is never the fallback object, whatever it holds.
\<close>

datatype config_ref = FallbackObject | ParsedObject json

fun config_value :: "config_ref \<Rightarrow> json" where
  "config_value FallbackObject = FALLBACK_FIREBASE_CONFIG"
| "config_value (ParsedObject j) = j"

text \<open>
  \<^verbatim>\<open>appId\<close>: the injected \<^verbatim>\<open>__app_id\<close> when it is defined, the default otherwise.
\<close>

definition appId :: "string option \<Rightarrow> string" where
  "appId app_id_var = (case app_id_var of None \<Rightarrow> DEFAULT_APP_ID | Some a \<Rightarrow> a)"

text \<open>
  The \<^verbatim>\<open>try\<close>/\<^verbatim>\<open>catch\<close> around the resolution of \<^verbatim>\<open>firebaseConfig\<close>.
  \<^verbatim>\<open>__firebase_config\<close> is \<^term>\<open>None\<close> when the variable is undefined; a string is
  truthy when it is not empty. \<^verbatim>\<open>JSON.parse\<close> belongs to the engine and is a
  parameter: it returns \<^term>\<open>None\<close> where it throws.
\<close>

definition resolve_firebaseConfig :: "(string \<Rightarrow> json option) \<Rightarrow> string option \<Rightarrow> config_ref" where
  "resolve_firebaseConfig JSON_parse firebase_config_var =
     (case firebase_config_var of
        None \<Rightarrow> FallbackObject
      | Some blob \<Rightarrow>
          if blob = [] then FallbackObject
          else (case JSON_parse blob of
                  None \<Rightarrow> FallbackObject
                | Some j \<Rightarrow> ParsedObject j))"

definition isFallback :: "config_ref \<Rightarrow> bool" where
  "isFallback firebaseConfig = (firebaseConfig = FallbackObject)"

definition getProductCollectionPath :: "string \<Rightarrow> string" where
  "getProductCollectionPath a = ''/artifacts/'' @ a @ ''/public/data/products''"

definition dataAppId :: "config_ref \<Rightarrow> string option \<Rightarrow> string" where
  "dataAppId firebaseConfig app_id_var =
     (if isFallback firebaseConfig then DEFAULT_APP_ID else appId app_id_var)"

definition subscription_path :: "config_ref \<Rightarrow> string option \<Rightarrow> string" where
  "subscription_path firebaseConfig app_id_var =
     getProductCollectionPath (dataAppId firebaseConfig app_id_var)"

section \<open>The snapshot callback and the derived values\<close>

text \<open>\<^verbatim>\<open>productList.filter(p => p.available)\<close>\<close>

definition available_products :: "product list \<Rightarrow> product list" where
  "available_products productList = filter available productList"

text \<open>
  \<^verbatim>\<open>.filter(Boolean)\<close> on the list of category fields: \<^verbatim>\<open>undefined\<close> and the
  empty string are dropped.
\<close>

fun filter_Boolean :: "string option list \<Rightarrow> string list" where
  "filter_Boolean [] = []"
| "filter_Boolean (None # cs) = filter_Boolean cs"
| "filter_Boolean (Some s # cs) = (if s = [] then filter_Boolean cs else s # filter_Boolean cs)"

text \<open>
  \<^verbatim>\<open>new Set(xs)\<close> spread into an array: the distinct elements in the order of their
  first occurrence.
\<close>

definition Set_add :: "'a list \<Rightarrow> 'a \<Rightarrow> 'a list" where
  "Set_add acc x = (if x \<in> set acc then acc else acc @ [x])"

definition new_Set :: "'a list \<Rightarrow> 'a list" where
  "new_Set xs = foldl Set_add [] xs"

text \<open>
  \<^verbatim>\<open>['All', ...new Set(productList.map(p => p.category).filter(Boolean))].sort()\<close>:
  the sort runs over the whole array, the leading \<^verbatim>\<open>'All'\<close> included.
\<close>

definition uniqueCategories :: "product list \<Rightarrow> string list" where
  "uniqueCategories productList =
     sort (''All'' # new_Set (filter_Boolean (map category productList)))"

text \<open>\<^verbatim>\<open>products.filter(product => activeCategory === 'All' || product.category === activeCategory)\<close>\<close>

definition filteredProducts :: "product list \<Rightarrow> string \<Rightarrow> product list" where
  "filteredProducts products activeCategory =
     filter (\<lambda>product. activeCategory = ''All'' \<or> category product = Some activeCategory) products"

subsection \<open>The accumulator object of the grouping\<close>

text \<open>
  The accumulator is a plain object \<^verbatim>\<open>{}\<close>: its own properties are kept in the order
  of their creation, and a read of a key that is not an own property reaches
  \<^verbatim>\<open>Object.prototype\<close>. Every property of the prototype is truthy (a function, or the
  prototype itself for \<^verbatim>\<open>__proto__\<close>) and has no \<^verbatim>\<open>push\<close>, so for such a key the
  reducer skips the initialisation and \<^verbatim>\<open>acc[category].push(product)\<close> raises a
  \<^verbatim>\<open>TypeError\<close>.
\<close>

type_synonym 'v js_object = "(string \<times> 'v) list"

datatype js_error = TypeError

definition object_prototype_keys :: "string list" where
  "object_prototype_keys =
     [''constructor'', ''hasOwnProperty'', ''isPrototypeOf'', ''propertyIsEnumerable'',
      ''toLocaleString'', ''toString'', ''valueOf'', ''__proto__'',
      ''__defineGetter__'', ''__defineSetter__'', ''__lookupGetter__'', ''__lookupSetter__'']"

text \<open>\<^verbatim>\<open>product.category || 'Uncategorized'\<close>\<close>

definition group_key :: "product \<Rightarrow> string" where
  "group_key product =
     (case category product of
        None \<Rightarrow> ''Uncategorized''
      | Some c \<Rightarrow> if c = [] then ''Uncategorized'' else c)"

fun push_at :: "string \<Rightarrow> 'a \<Rightarrow> ('a list) js_object \<Rightarrow> ('a list) js_object" where
  "push_at k x [] = []"
| "push_at k x ((k', items) # rest) =
     (if k = k' then (k', items @ [x]) # rest else (k', items) # push_at k x rest)"

text \<open>One call of the reducer function passed to \<^verbatim>\<open>filteredProducts.reduce\<close>.\<close>

definition group_step :: "(product list) js_object \<Rightarrow> product \<Rightarrow> js_error + (product list) js_object" where
  "group_step acc product =
     (let c = group_key product in
      case map_of acc c of
        Some items \<Rightarrow> Inr (push_at c product acc)
      | None \<Rightarrow>
          if c \<in> set object_prototype_keys then Inl TypeError
          else Inr (acc @ [(c, [product])]))"

fun reduce_from :: "(product list) js_object \<Rightarrow> product list \<Rightarrow> js_error + (product list) js_object" where
  "reduce_from acc [] = Inr acc"
| "reduce_from acc (product # rest) =
     (case group_step acc product of
        Inl e \<Rightarrow> Inl e
      | Inr acc' \<Rightarrow> reduce_from acc' rest)"

definition productsGroupedByCategory :: "product list \<Rightarrow> js_error + (product list) js_object" where
  "productsGroupedByCategory fp = reduce_from [] fp"

subsection \<open>\<^verbatim>\<open>Object.entries\<close>\<close>

text \<open>
  The own keys of an ordinary object are enumerated with the array indices first, in
  ascending numeric order, and the other strings after them in the order of their creation.
  An array index is the canonical decimal writing of an integer from 0 to \<open>2^32 - 2\<close>.
\<close>

definition is_digit :: "char \<Rightarrow> bool" where
  "is_digit c = (c \<in> set ''0123456789'')"

definition digits_val :: "string \<Rightarrow> int" where
  "digits_val k = foldl (\<lambda>n c. 10 * n + (of_char c - 48)) 0 k"

fun canonical_digits :: "string \<Rightarrow> bool" where
  "canonical_digits [] = False"
| "canonical_digits [c] = is_digit c"
| "canonical_digits (c # cs) = (is_digit c \<and> c \<noteq> CHR ''0'' \<and> list_all is_digit cs)"

definition is_array_index :: "string \<Rightarrow> bool" where
  "is_array_index k = (canonical_digits k \<and> digits_val k < 4294967295)"

definition Object_entries :: "'v js_object \<Rightarrow> (string \<times> 'v) list" where
  "Object_entries obj =
     sort_key (\<lambda>kv. digits_val (fst kv)) (filter (\<lambda>kv. is_array_index (fst kv)) obj)
     @ filter (\<lambda>kv. \<not> is_array_index (fst kv)) obj"

text \<open>
  The values the component derives from one snapshot list and one active category: the
  \<^verbatim>\<open>products\<close> state, the \<^verbatim>\<open>categories\<close> state, and the grouped object.
\<close>

definition view_model :: "product list \<Rightarrow> string \<Rightarrow>
    product list \<times> string list \<times> (js_error + (product list) js_object)" where
  "view_model productList activeCategory =
     (available_products productList,
      uniqueCategories productList,
      productsGroupedByCategory (filteredProducts (available_products productList) activeCategory))"

section \<open>Component state and callbacks\<close>

text \<open>
  The \<^verbatim>\<open>error\<close> state is \<^verbatim>\<open>null\<close> or one of the four strings that the calls of
  \<^verbatim>\<open>setError\<close> build; \<^verbatim>\<open>e.message\<close> is the argument of the last three.
\<close>

datatype error_value =
    InitializationFailed
  | InitializationError string
  | DataFetchFailed string
  | RealTimeDataError string

fun error_text :: "error_value \<Rightarrow> string" where
  "error_text InitializationFailed =
     ''Initialization Failed: Firebase configuration is missing or invalid.''"
| "error_text (InitializationError m) = ''Initialization Error: '' @ m"
| "error_text (DataFetchFailed m) =
     ''Data fetch failed: '' @ m @ ''. Please verify Firestore rules.''"
| "error_text (RealTimeDataError m) =
     ''Real-time data error: '' @ m @ ''. Please verify Firestore rules.''"

text \<open>
  The test \<^verbatim>\<open>if (error)\<close>: the message when the state is a non-empty string,
  \<^term>\<open>None\<close> when it is \<^verbatim>\<open>null\<close> or empty.
\<close>

definition truthy_error :: "error_value option \<Rightarrow> string option" where
  "truthy_error e =
     (case e of
        None \<Rightarrow> None
      | Some v \<Rightarrow> if error_text v = [] then None else Some (error_text v))"

text \<open>
  The six \<^verbatim>\<open>useState\<close> cells, and \<^verbatim>\<open>db\<close>: whether the module-level handle has been
  assigned.
\<close>

record app_state =
  products :: "product list"
  loading :: bool
  error :: "error_value option"
  isAuthReady :: bool
  categories :: "string list"
  activeCategory :: string
  db :: bool

definition initial_state :: app_state where
  "initial_state =
     \<lparr>products = [], loading = True, error = None, isAuthReady = False,
      categories = [], activeCategory = ''All'', db = False\<rparr>"

subsection \<open>The initialisation effect\<close>

fun js_truthy :: "json \<Rightarrow> bool" where
  "js_truthy JNull = False"
| "js_truthy (JBool b) = b"
| "js_truthy (JNum n) = (n \<noteq> 0)"
| "js_truthy (JStr s) = (s \<noteq> [])"
| "js_truthy (JArr xs) = True"
| "js_truthy (JObj kvs) = True"

text \<open>
  \<^verbatim>\<open>!firebaseConfig || !firebaseConfig.projectId\<close>; only an object can carry the
  property.
\<close>

fun lacks_projectId :: "json \<Rightarrow> bool" where
  "lacks_projectId (JObj kvs) =
     (case map_of kvs ''projectId'' of None \<Rightarrow> True | Some v \<Rightarrow> \<not> js_truthy v)"
| "lacks_projectId j = True"

definition config_missing :: "config_ref \<Rightarrow> bool" where
  "config_missing firebaseConfig =
     (\<not> js_truthy (config_value firebaseConfig) \<or> lacks_projectId (config_value firebaseConfig))"

text \<open>
  What the \<^verbatim>\<open>try\<close> block of the effect does: it returns, or one of the library calls
  throws an exception with the given message, before or after the assignment of \<^verbatim>\<open>db\<close>.
\<close>

datatype init_outcome = InitReturns | InitThrows bool string

fun init_effect :: "config_ref \<Rightarrow> init_outcome \<Rightarrow> app_state \<Rightarrow> app_state" where
  "init_effect firebaseConfig outcome s =
     (if config_missing firebaseConfig
      then s\<lparr>error := Some InitializationFailed, isAuthReady := True\<rparr>
      else (case outcome of
              InitReturns \<Rightarrow> s\<lparr>db := True\<rparr>
            | InitThrows db_assigned m \<Rightarrow>
                s\<lparr>db := (db s \<or> db_assigned), error := Some (InitializationError m),
                  isAuthReady := True\<rparr>))"

subsection \<open>The listener effect and its callbacks\<close>


text \<open>The success callback, when its \<^verbatim>\<open>try\<close> block runs to the end.\<close>

definition snapshot_next :: "product list \<Rightarrow> app_state \<Rightarrow> app_state" where
  "snapshot_next productList s =
     s\<lparr>products := available_products productList,
       loading := False,
       categories := uniqueCategories productList\<rparr>"

text \<open>
  The \<^verbatim>\<open>catch\<close> branch of the success callback, for an exception raised while the
  documents are mapped (before any setter has run).
\<close>

definition snapshot_catch :: "string \<Rightarrow> app_state \<Rightarrow> app_state" where
  "snapshot_catch m s = s\<lparr>error := Some (DataFetchFailed m), loading := False\<rparr>"

text \<open>The error callback of \<^verbatim>\<open>onSnapshot\<close>.\<close>

definition snapshot_error :: "string \<Rightarrow> app_state \<Rightarrow> app_state" where
  "snapshot_error m s = s\<lparr>error := Some (RealTimeDataError m), loading := False\<rparr>"

datatype event =
    InitEffect init_outcome
  | AuthStateChanged
  | SnapshotDelivered "product list"
  | SnapshotTransformThrows string
  | SnapshotFailed string
  | CategoryClicked string

text \<open>
  One callback run. The callbacks are not restricted to the states in which the listener
  is subscribed: a statement proved for every event list holds for the runs the
  subscription allows.
\<close>

fun step :: "config_ref \<Rightarrow> app_state \<Rightarrow> event \<Rightarrow> app_state" where
  "step firebaseConfig s (InitEffect outcome) = init_effect firebaseConfig outcome s"
| "step firebaseConfig s AuthStateChanged = s\<lparr>isAuthReady := True\<rparr>"
| "step firebaseConfig s (SnapshotDelivered productList) = snapshot_next productList s"
| "step firebaseConfig s (SnapshotTransformThrows m) = snapshot_catch m s"
| "step firebaseConfig s (SnapshotFailed m) = snapshot_error m s"
| "step firebaseConfig s (CategoryClicked cat) = s\<lparr>activeCategory := cat\<rparr>"



section \<open>Rendering\<close>

text \<open>
  What \<^verbatim>\<open>renderProductList\<close> returns: the loading placeholder, the error box with its
  message and whether the fallback note is shown, the empty-menu box with whether its note
  is shown, or the category sections in the order of \<^verbatim>\<open>Object.entries\<close>.
\<close>

datatype view =
    LoadingView
  | ErrorView string bool
  | EmptyView bool
  | PopulatedView "(string \<times> product list) list"

datatype view_kind = Loading | Error | Empty | Populated

fun kind_of :: "view \<Rightarrow> view_kind" where
  "kind_of LoadingView = Loading"
| "kind_of (ErrorView m note) = Error"
| "kind_of (EmptyView note) = Empty"
| "kind_of (PopulatedView sections) = Populated"

definition renderProductList :: "config_ref \<Rightarrow> app_state \<Rightarrow> (product list) js_object \<Rightarrow> view" where
  "renderProductList firebaseConfig s grouped =
     (if loading s then LoadingView
      else (case truthy_error (error s) of
              Some m \<Rightarrow> ErrorView m (isFallback firebaseConfig)
            | None \<Rightarrow>
                if length (products s) = 0 then EmptyView (isFallback firebaseConfig)
                else PopulatedView (Object_entries grouped)))"

text \<open>
  The body of the component: the grouped object is computed on every render, before the
  dispatch; the filter strip is shown when there is more than one category.
\<close>

definition grouped_of :: "app_state \<Rightarrow> js_error + (product list) js_object" where
  "grouped_of s = productsGroupedByCategory (filteredProducts (products s) (activeCategory s))"


text \<open>The derived values the component holds in a state.\<close>

definition derived :: "app_state \<Rightarrow>
    product list \<times> string list \<times> (js_error + (product list) js_object)" where
  "derived s = (products s, categories s, grouped_of s)"

subsection \<open>Inputs of the scenarios\<close>

definition Soup :: product where
  "Soup = \<lparr>pid = ''1'', name = ''Soup'', description = None, price = Some (9 / 2),
            category = Some ''Starters'', available = True\<rparr>"

definition Cake :: product where
  "Cake = \<lparr>pid = ''2'', name = ''Cake'', description = None, price = Some 6,
            category = Some ''Desserts'', available = False\<rparr>"

definition Gin :: product where
  "Gin = \<lparr>pid = ''3'', name = ''Gin'', description = None, price = Some 7,
           category = Some ''Alcohol'', available = True\<rparr>"

definition Everything :: product where
  "Everything = \<lparr>pid = ''4'', name = ''Tasting menu'', description = None, price = Some 30,
                  category = Some ''All'', available = True\<rparr>"

definition Special :: product where
  "Special = \<lparr>pid = ''5'', name = ''Dish of the day'', description = None, price = Some 9,
               category = Some ''1'', available = True\<rparr>"

definition Bread :: product where
  "Bread = \<lparr>pid = ''6'', name = ''Bread'', description = None, price = None,
             category = Some [], available = True\<rparr>"

definition Water :: product where
  "Water = \<lparr>pid = ''7'', name = ''Water'', description = None, price = Some 1,
             category = Some ''Uncategorized'', available = True\<rparr>"

definition Salad :: product where
  "Salad = \<lparr>pid = ''8'', name = ''Salad'', description = Some ''Green'', price = Some 5,
             category = Some ''Starters'', available = True\<rparr>"

definition Garnish :: product where
  "Garnish = \<lparr>pid = ''9'', name = ''Garnish'', description = None, price = Some 2,
               category = Some ''constructor'', available = True\<rparr>"

subsection \<open>Auxiliary notions\<close>

text \<open>The products of a list that the reducer files under one key, in the list's order.\<close>

definition with_key :: "string \<Rightarrow> product list \<Rightarrow> product list" where
  "with_key k ps = filter (\<lambda>p. group_key p = k) ps"

text \<open>
  The headings of the rendered sections, in rendering order:
  \<^verbatim>\<open>Object.entries(productsGroupedByCategory).map(([category, items]) => ...)\<close> over the
  grouped object of a snapshot list and an active category.
\<close>

definition section_order :: "product list \<Rightarrow> string \<Rightarrow> js_error + string list" where
  "section_order productList active =
     (case productsGroupedByCategory
             (filteredProducts (available_products productList) active) of
        Inl e \<Rightarrow> Inl e
      | Inr grouped \<Rightarrow> Inr (map fst (Object_entries grouped)))"


section \<open>Properties\<close>

lemmas reducer_defs =
  view_model_def available_products_def uniqueCategories_def new_Set_def Set_add_def
  filteredProducts_def productsGroupedByCategory_def group_step_def group_key_def
  object_prototype_keys_def Let_def

lemmas product_defs =
  Soup_def Cake_def Gin_def Everything_def Special_def Bread_def Water_def Salad_def
  Garnish_def

subsection \<open>The category list\<close>

lemma set_Set_add: "set (Set_add acc x) = insert x (set acc)"
  by (auto simp: Set_add_def)

lemma set_foldl_Set_add: "set (foldl Set_add acc xs) = set acc \<union> set xs"
  by (induction xs arbitrary: acc) (auto simp: Set_add_def)

lemma distinct_foldl_Set_add: "distinct acc \<Longrightarrow> distinct (foldl Set_add acc xs)"
  by (induction xs arbitrary: acc) (auto simp: Set_add_def)

lemma set_new_Set: "set (new_Set xs) = set xs"
  by (simp add: new_Set_def set_foldl_Set_add)

lemma distinct_new_Set: "distinct (new_Set xs)"
  by (simp add: new_Set_def distinct_foldl_Set_add)

lemma set_filter_Boolean: "set (filter_Boolean cs) = {c. c \<noteq> [] \<and> Some c \<in> set cs}"
  by (induction cs rule: filter_Boolean.induct) auto

lemma set_uniqueCategories:
  "set (uniqueCategories productList) =
     insert ''All'' {c. c \<noteq> [] \<and> (\<exists>p\<in>set productList. category p = Some c)}"
  unfolding uniqueCategories_def set_sort
  by (auto simp: set_new_Set set_filter_Boolean image_iff) metis

lemma All_in_uniqueCategories: "''All'' \<in> set (uniqueCategories productList)"
  by (simp add: set_uniqueCategories)

lemma sorted_uniqueCategories: "sorted (uniqueCategories productList)"
  unfolding uniqueCategories_def by (rule sorted_sort)

lemma empty_not_in_uniqueCategories: "[] \<notin> set (uniqueCategories productList)"
  by (simp add: set_uniqueCategories)

subsection \<open>The grouping\<close>

lemma map_fst_push_at: "map fst (push_at k x acc) = map fst acc"
  by (induction acc) auto

lemma map_of_push_at:
  "map_of (push_at k x acc) k' =
     (if k' = k then map_option (\<lambda>items. items @ [x]) (map_of acc k) else map_of acc k')"
  by (induction acc) auto

text \<open>The two ways in which one reducer call completes.\<close>

lemma group_step_cases:
  assumes "group_step acc p = Inr acc'"
  obtains (created) "map_of acc (group_key p) = None"
      "group_key p \<notin> set object_prototype_keys" "acc' = acc @ [(group_key p, [p])]"
    | (pushed) items where "map_of acc (group_key p) = Some items"
      "acc' = push_at (group_key p) p acc"
  using assms unfolding group_step_def Let_def
  by (cases "map_of acc (group_key p)") (auto split: if_splits)

lemma group_step_keys:
  assumes "group_step acc p = Inr acc'"
  shows "map fst acc' = Set_add (map fst acc) (group_key p)"
  using assms
proof (cases rule: group_step_cases)
  case created
  then show ?thesis by (simp add: Set_add_def map_of_eq_None_iff)
next
  case (pushed items)
  from pushed(1) have "group_key p \<in> set (map fst acc)"
    by (metis map_of_eq_None_iff option.distinct(1) set_map)
  with pushed(2) show ?thesis by (simp add: Set_add_def map_fst_push_at)
qed

lemma reduce_from_keys:
  "reduce_from acc ps = Inr g \<Longrightarrow> map fst g = foldl Set_add (map fst acc) (map group_key ps)"
proof (induction ps arbitrary: acc)
  case Nil
  then show ?case by simp
next
  case (Cons p ps)
  then obtain acc' where st: "group_step acc p = Inr acc'" and rest: "reduce_from acc' ps = Inr g"
    by (auto split: sum.splits)
  show ?case using Cons.IH[OF rest] group_step_keys[OF st] by simp
qed

text \<open>The own keys of the grouped object, in creation order.\<close>

lemma grouped_keys:
  "productsGroupedByCategory fp = Inr g \<Longrightarrow> map fst g = new_Set (map group_key fp)"
  unfolding productsGroupedByCategory_def new_Set_def by (drule reduce_from_keys) simp

lemma group_step_lookup:
  assumes "group_step acc p = Inr acc'"
  shows "map_of acc' k =
     (if k = group_key p
      then Some ((case map_of acc k of None \<Rightarrow> [] | Some items \<Rightarrow> items) @ [p])
      else map_of acc k)"
  using assms
proof (cases rule: group_step_cases)
  case created
  then show ?thesis by (simp add: map_add_def split: option.splits)
next
  case (pushed items)
  then show ?thesis by (simp add: map_of_push_at)
qed

lemma reduce_from_lookup:
  "reduce_from acc ps = Inr g \<Longrightarrow>
     map_of g k =
       (case map_of acc k of
          None \<Rightarrow> if with_key k ps = [] then None else Some (with_key k ps)
        | Some items \<Rightarrow> Some (items @ with_key k ps))"
proof (induction ps arbitrary: acc)
  case Nil
  then show ?case by (simp add: with_key_def split: option.splits)
next
  case (Cons p ps)
  then obtain acc' where st: "group_step acc p = Inr acc'" and rest: "reduce_from acc' ps = Inr g"
    by (auto split: sum.splits)
  show ?case
    using Cons.IH[OF rest] group_step_lookup[OF st, of k]
    by (auto simp: with_key_def split: option.splits)
qed

text \<open>Each group holds the products of its key, in the order of the reduced list.\<close>

lemma grouped_lookup:
  "productsGroupedByCategory fp = Inr g \<Longrightarrow>
     map_of g k = (if with_key k fp = [] then None else Some (with_key k fp))"
  unfolding productsGroupedByCategory_def by (drule reduce_from_lookup[where k = k]) simp

lemma grouped_entry:
  assumes "productsGroupedByCategory fp = Inr g" and "(k, items) \<in> set g"
  shows "items = with_key k fp \<and> items \<noteq> []"
proof -
  have "distinct (map fst g)"
    using grouped_keys[OF assms(1)] by (simp add: distinct_new_Set)
  then have "map_of g k = Some items"
    using assms(2) by (rule map_of_is_SomeI)
  then show ?thesis
    using grouped_lookup[OF assms(1), of k] by (auto split: if_splits)
qed

lemma insert_keys_absorb:
  "(P (f p) \<longrightarrow> f p \<in> K) \<Longrightarrow>
     (\<forall>q\<in>S. P (f q) \<longrightarrow> f q \<in> insert (f p) K) \<longleftrightarrow> (\<forall>q\<in>insert p S. P (f q) \<longrightarrow> f q \<in> K)"
  by auto

text \<open>
  The reduction raises exactly when it meets a key of \<^verbatim>\<open>Object.prototype\<close> that is
  not an own property of the accumulator.
\<close>

lemma reduce_from_succeeds:
  "(\<exists>g. reduce_from acc ps = Inr g) \<longleftrightarrow>
     (\<forall>p\<in>set ps. group_key p \<in> set object_prototype_keys \<longrightarrow> group_key p \<in> fst ` set acc)"
proof (induction ps arbitrary: acc)
  case Nil
  then show ?case by simp
next
  case (Cons p ps)
  show ?case
  proof (cases "group_step acc p")
    case (Inl e)
    then show ?thesis
      by (auto simp: group_step_def Let_def map_of_eq_None_iff split: option.splits if_splits)
  next
    case (Inr acc')
    have "set (map fst acc') = insert (group_key p) (set (map fst acc))"
      using group_step_keys[OF Inr] by (simp add: set_Set_add)
    then have keys: "fst ` set acc' = insert (group_key p) (fst ` set acc)"
      by simp
    have ok: "group_key p \<in> set object_prototype_keys \<longrightarrow> group_key p \<in> fst ` set acc"
      using Inr
    proof (cases rule: group_step_cases)
      case created
      then show ?thesis by simp
    next
      case (pushed items)
      then show ?thesis by (metis map_of_eq_None_iff option.distinct(1))
    qed
    have "(\<exists>g. reduce_from acc (p # ps) = Inr g) \<longleftrightarrow> (\<exists>g. reduce_from acc' ps = Inr g)"
      using Inr by simp
    also have "\<dots> \<longleftrightarrow> (\<forall>q\<in>set ps. group_key q \<in> set object_prototype_keys
                    \<longrightarrow> group_key q \<in> insert (group_key p) (fst ` set acc))"
      using Cons.IH[of acc'] keys by simp
    also have "\<dots> \<longleftrightarrow> (\<forall>q\<in>set (p # ps). group_key q \<in> set object_prototype_keys
                    \<longrightarrow> group_key q \<in> fst ` set acc)"
      using insert_keys_absorb[of "\<lambda>k. k \<in> set object_prototype_keys" group_key p
          "fst ` set acc" "set ps", OF ok]
      by simp
    finally show ?thesis .
  qed
qed

lemma grouped_succeeds:
  "(\<exists>g. productsGroupedByCategory fp = Inr g) \<longleftrightarrow>
     (\<forall>p\<in>set fp. group_key p \<notin> set object_prototype_keys)"
  unfolding productsGroupedByCategory_def reduce_from_succeeds by simp

subsection \<open>The enumeration order\<close>

lemma map_fst_insort_key:
  "map fst (insort_key (\<lambda>kv. f (fst kv)) x xs) = insort_key f (fst x) (map fst xs)"
  by (induction xs) auto

lemma map_fst_sort_key:
  "map fst (sort_key (\<lambda>kv. f (fst kv)) xs) = sort_key f (map fst xs)"
  by (induction xs) (auto simp: map_fst_insort_key)

lemma Object_entries_keys:
  "map fst (Object_entries obj) =
     sort_key digits_val (filter is_array_index (map fst obj))
     @ filter (\<lambda>k. \<not> is_array_index k) (map fst obj)"
  by (simp add: Object_entries_def map_fst_sort_key filter_map comp_def)

lemma set_Object_entries: "set (Object_entries obj) = set obj"
  by (auto simp: Object_entries_def)

subsection \<open>The error state\<close>

lemma error_text_nonempty: "error_text v \<noteq> []"
  by (cases v) simp_all

lemma truthy_error_None_iff: "truthy_error e = None \<longleftrightarrow> e = None"
  by (cases e) (simp_all add: truthy_error_def error_text_nonempty)





section \<open>The claims\<close>

text \<open>
  C1 (as the code has it). For the snapshot list of Soup (Starters, available) and Cake
  (Desserts, not available) with the active category \<^verbatim>\<open>"All"\<close>, the available products
  are [Soup] and the grouped object is \<^verbatim>\<open>{"Starters": [Soup]}\<close>; the category list is
  \<^verbatim>\<open>["All", "Desserts", "Starters"]\<close>, because the categories are taken from the whole
  snapshot list, the unavailable products included.
\<close>

theorem scenario_view_model:
  "view_model [Soup, Cake] ''All'' =
     ([Soup], [''All'', ''Desserts'', ''Starters''], Inr [(''Starters'', [Soup])])"
  by (simp add: reducer_defs Soup_def Cake_def)

text \<open>
  C1 as it is written, with the category list \<^verbatim>\<open>["All", "Starters"]\<close>, does not hold.
\<close>

theorem scenario_view_model_counterexample:
  "view_model [Soup, Cake] ''All'' \<noteq>
     ([Soup], [''All'', ''Starters''], Inr [(''Starters'', [Soup])])"
  by (simp add: reducer_defs Soup_def Cake_def)

text \<open>
  C2 at two snapshot lists. The category list always contains \<^verbatim>\<open>"All"\<close>
  (\<open>All_in_uniqueCategories\<close>) and is sorted (\<open>sorted_uniqueCategories\<close>), but the sort
  moves \<^verbatim>\<open>"All"\<close> behind a category such as \<^verbatim>\<open>"Alcohol"\<close>, and a product whose
  category is literally \<^verbatim>\<open>"All"\<close> makes the entry appear twice.
\<close>

theorem uniqueCategories_All_displaced:
  "uniqueCategories [Gin] = [''Alcohol'', ''All'']
   \<and> hd (uniqueCategories [Gin]) \<noteq> ''All''
   \<and> uniqueCategories [Everything] = [''All'', ''All'']
   \<and> \<not> distinct (uniqueCategories [Everything])"
  by (simp add: uniqueCategories_def new_Set_def Set_add_def Gin_def Everything_def)




text \<open>
  C4. For every loading flag, error value and product list the dispatch returns one view,
  chosen in the order Loading, Error, Empty, Populated: Loading when the flag is set; else
  Error when the error is not \<^verbatim>\<open>null\<close>; else Empty when the list of available products
  has length zero; Populated otherwise. After a delivery the view is Empty exactly when
  there was no error and the snapshot held no available product, however many unavailable
  products it held.
\<close>

theorem renderProductList_dispatch:
  "kind_of (renderProductList firebaseConfig s grouped) =
     (if loading s then Loading
      else if error s \<noteq> None then Error
      else if length (products s) = 0 then Empty
      else Populated)
   \<and> (kind_of (renderProductList firebaseConfig (snapshot_next productList s) grouped) = Empty
        \<longleftrightarrow> error s = None \<and> (\<forall>p\<in>set productList. \<not> available p))"
proof -
  have d: "kind_of (renderProductList firebaseConfig t grouped) =
     (if loading t then Loading
      else if error t \<noteq> None then Error
      else if length (products t) = 0 then Empty
      else Populated)" for t
    by (cases "truthy_error (error t)")
       (auto simp: renderProductList_def truthy_error_None_iff[symmetric]
             simp del: truthy_error_None_iff)
  have "kind_of (renderProductList firebaseConfig (snapshot_next productList s) grouped) = Empty
        \<longleftrightarrow> error s = None \<and> (\<forall>p\<in>set productList. \<not> available p)"
    unfolding d by (auto simp: snapshot_next_def available_products_def filter_empty_conv)
  with d[of s] show ?thesis by simp
qed

theorem renderProductList_dispatch_witness:
  "kind_of (renderProductList FallbackObject (snapshot_next [Cake, Cake] initial_state) []) = Empty
   \<and> kind_of (renderProductList FallbackObject (snapshot_next [Cake, Soup] initial_state)
        [(''Starters'', [Soup])]) = Populated"
  using renderProductList_dispatch[of FallbackObject initial_state "[]" "[Cake, Cake]"]
    renderProductList_dispatch[of FallbackObject "snapshot_next [Cake, Soup] initial_state"
      "[(''Starters'', [Soup])]" "[]"]
  by (simp add: initial_state_def snapshot_next_def available_products_def product_defs)

text \<open>
  C5. For every snapshot list and active category, every product in every group of the
  grouped object is available.
\<close>

theorem grouped_products_available:
  assumes "view_model productList active = (shown, cats, Inr grouped)"
    and "(c, items) \<in> set grouped" and "p \<in> set items"
  shows "available p"
proof -
  let ?fp = "filteredProducts (available_products productList) active"
  have g: "productsGroupedByCategory ?fp = Inr grouped"
    using assms(1) by (auto simp: view_model_def)
  have "items = with_key c ?fp"
    using grouped_entry[OF g assms(2)] by simp
  with assms(3) have "p \<in> set (available_products productList)"
    by (simp add: with_key_def filteredProducts_def)
  then show ?thesis by (simp add: available_products_def)
qed

theorem grouped_products_available_witness:
  "view_model [Soup, Cake] ''All'' =
     ([Soup], [''All'', ''Desserts'', ''Starters''], Inr [(''Starters'', [Soup])])
   \<and> (''Starters'', [Soup]) \<in> set [(''Starters'', [Soup])] \<and> Soup \<in> set [Soup]
   \<and> available Soup"
  using grouped_products_available[of "[Soup, Cake]" "''All''" "[Soup]"
      "[''All'', ''Desserts'', ''Starters'']" "[(''Starters'', [Soup])]" "''Starters''" "[Soup]" Soup]
  by (simp add: reducer_defs Soup_def Cake_def)

text \<open>
  C6. The subscription path is the string \<^verbatim>\<open>/artifacts/\<close>, the tenant identifier,
  \<^verbatim>\<open>/public/data/products\<close>; the tenant identifier is \<^verbatim>\<open>fresh-eats-admin-dev\<close>
  whenever the fallback configuration is in use, and the supplied identifier otherwise.
\<close>

theorem subscription_path_exact:
  "subscription_path firebaseConfig app_id_var =
     ''/artifacts/'' @ dataAppId firebaseConfig app_id_var @ ''/public/data/products''
   \<and> (isFallback firebaseConfig \<longrightarrow>
        dataAppId firebaseConfig app_id_var = ''fresh-eats-admin-dev'')
   \<and> (\<not> isFallback firebaseConfig \<longrightarrow> app_id_var = Some supplied \<longrightarrow>
        dataAppId firebaseConfig app_id_var = supplied)"
  by (simp add: subscription_path_def getProductCollectionPath_def dataAppId_def
      DEFAULT_APP_ID_def appId_def)

theorem subscription_path_exact_witness:
  "isFallback FallbackObject
   \<and> subscription_path FallbackObject (Some ''tenant-42'') =
       ''/artifacts/fresh-eats-admin-dev/public/data/products''
   \<and> \<not> isFallback (ParsedObject (JObj [(''projectId'', JStr ''live'')]))
   \<and> subscription_path (ParsedObject (JObj [(''projectId'', JStr ''live'')])) (Some ''tenant-42'') =
       ''/artifacts/tenant-42/public/data/products''"
  using subscription_path_exact[of FallbackObject "Some ''tenant-42''" "''tenant-42''"]
    subscription_path_exact[of "ParsedObject (JObj [(''projectId'', JStr ''live'')])"
      "Some ''tenant-42''" "''tenant-42''"]
  by (simp add: isFallback_def)

text \<open>
  C7. When the configuration variable is undefined, empty, or a string that
  \<^verbatim>\<open>JSON.parse\<close> rejects, the resolved configuration is the fallback configuration and
  \<^verbatim>\<open>isFallback\<close> is true.
\<close>

theorem resolve_firebaseConfig_fallback:
  assumes "firebase_config_var = None \<or> firebase_config_var = Some []
           \<or> (\<exists>blob. firebase_config_var = Some blob \<and> JSON_parse blob = None)"
  shows "config_value (resolve_firebaseConfig JSON_parse firebase_config_var)
           = FALLBACK_FIREBASE_CONFIG
         \<and> isFallback (resolve_firebaseConfig JSON_parse firebase_config_var)"
  using assms by (auto simp: resolve_firebaseConfig_def isFallback_def)

theorem resolve_firebaseConfig_fallback_witness:
  "(\<lambda>blob. if blob = ''{}'' then Some (JObj []) else None) ''{apiKey:'' = None
   \<and> config_value (resolve_firebaseConfig
         (\<lambda>blob. if blob = ''{}'' then Some (JObj []) else None) (Some ''{apiKey:''))
       = FALLBACK_FIREBASE_CONFIG
   \<and> isFallback (resolve_firebaseConfig
         (\<lambda>blob. if blob = ''{}'' then Some (JObj []) else None) (Some ''{apiKey:''))"
  using resolve_firebaseConfig_fallback[of "Some ''{apiKey:''"
      "\<lambda>blob. if blob = ''{}'' then Some (JObj []) else None"]
  by simp

text \<open>
  C8. The derived values are a function of the snapshot list and the active category
  alone: whatever the state before (and whatever the configuration), after the delivery of
  a list and the choice of a category, in either order, the products, the category list
  and the grouped object are those of \<open>view_model\<close>, so two runs on equal inputs give
  equal outputs.
\<close>

theorem delivery_determines_view_model:
  "derived (step firebaseConfig (step firebaseConfig s (SnapshotDelivered productList))
              (CategoryClicked c))
     = view_model productList c
   \<and> derived (step firebaseConfig (step firebaseConfig s (CategoryClicked c))
              (SnapshotDelivered productList))
     = view_model productList c
   \<and> derived (step firebaseConfig' (step firebaseConfig' s' (SnapshotDelivered productList))
              (CategoryClicked c))
     = derived (step firebaseConfig (step firebaseConfig s (SnapshotDelivered productList))
              (CategoryClicked c))"
  by (simp add: derived_def grouped_of_def view_model_def snapshot_next_def)

theorem delivery_determines_view_model_witness:
  "derived (step FallbackObject
       (step FallbackObject (snapshot_next [Gin, Bread] initial_state)
          (SnapshotDelivered [Soup, Cake]))
       (CategoryClicked ''All''))
     = ([Soup], [''All'', ''Desserts'', ''Starters''], Inr [(''Starters'', [Soup])])"
  using delivery_determines_view_model[of FallbackObject "snapshot_next [Gin, Bread] initial_state"
      "[Soup, Cake]" "''All''" FallbackObject initial_state]
  by (simp add: reducer_defs Soup_def Cake_def)

text \<open>
  C9 (as the code has it). When the grouping does not raise, the sections are rendered in
  the order of \<^verbatim>\<open>Object.entries\<close>: first the categories that are array indices, in
  ascending numeric order, then the other categories in the order of their first
  occurrence in the filtered list. When no category is an array index, the sections follow
  the order of first occurrence.
\<close>

theorem section_order_characterised:
  assumes "\<forall>p\<in>set (filteredProducts (available_products productList) active).
             group_key p \<notin> set object_prototype_keys"
  shows "section_order productList active =
           Inr (sort_key digits_val (filter is_array_index
                  (new_Set (map group_key (filteredProducts (available_products productList) active))))
                @ filter (\<lambda>k. \<not> is_array_index k)
                  (new_Set (map group_key (filteredProducts (available_products productList) active))))
         \<and> ((\<forall>p\<in>set (filteredProducts (available_products productList) active).
                \<not> is_array_index (group_key p)) \<longrightarrow>
              section_order productList active =
                Inr (new_Set (map group_key (filteredProducts (available_products productList) active))))"
proof -
  let ?fp = "filteredProducts (available_products productList) active"
  let ?ks = "new_Set (map group_key ?fp)"
  obtain g where g: "productsGroupedByCategory ?fp = Inr g"
    using assms grouped_succeeds[of ?fp] by blast
  have 1: "section_order productList active =
      Inr (sort_key digits_val (filter is_array_index ?ks) @ filter (\<lambda>k. \<not> is_array_index k) ?ks)"
    using g by (simp add: section_order_def Object_entries_keys grouped_keys)
  have "filter is_array_index ?ks = [] \<and> filter (\<lambda>k. \<not> is_array_index k) ?ks = ?ks"
    if "\<forall>p\<in>set ?fp. \<not> is_array_index (group_key p)"
    using that by (auto simp: filter_empty_conv filter_id_conv set_new_Set)
  with 1 show ?thesis by simp
qed

theorem section_order_characterised_witness:
  "map group_key (filteredProducts (available_products [Gin, Cake, Soup, Bread, Salad]) ''All'')
       = [''Alcohol'', ''Starters'', ''Uncategorized'', ''Starters'']
   \<and> section_order [Gin, Cake, Soup, Bread, Salad] ''All''
       = Inr [''Alcohol'', ''Starters'', ''Uncategorized'']
   \<and> section_order [Soup, Special, Salad, Gin] ''All'' = Inr [''1'', ''Starters'', ''Alcohol'']"
proof -
  have h1: "\<forall>p\<in>set (filteredProducts (available_products [Gin, Cake, Soup, Bread, Salad]) ''All'').
       group_key p \<notin> set object_prototype_keys"
    by (simp add: reducer_defs product_defs)
  have h2: "\<forall>p\<in>set (filteredProducts (available_products [Soup, Special, Salad, Gin]) ''All'').
       group_key p \<notin> set object_prototype_keys"
    by (simp add: reducer_defs product_defs)
  show ?thesis
    using section_order_characterised[OF h1] section_order_characterised[OF h2]
    by (simp add: reducer_defs product_defs is_array_index_def is_digit_def digits_val_def)
qed

text \<open>
  C9 as it is written does not hold: with the categories \<^verbatim>\<open>"Starters"\<close> and
  \<^verbatim>\<open>"1"\<close> first met in this order, the section \<^verbatim>\<open>"1"\<close> is rendered first.
\<close>

theorem section_order_counterexample:
  "section_order [Soup, Special] ''All'' = Inr [''1'', ''Starters'']
   \<and> new_Set (map group_key (filteredProducts (available_products [Soup, Special]) ''All''))
       = [''Starters'', ''1'']"
  by (simp add: section_order_def Object_entries_def reducer_defs product_defs
      is_array_index_def is_digit_def digits_val_def)

text \<open>
  C10 (as the code has it). An available product whose category field is the empty
  string is grouped and rendered under \<^verbatim>\<open>"Uncategorized"\<close> when the active category is
  \<^verbatim>\<open>"All"\<close> (the grouping completes when no available product has a category that
  names a property of \<^verbatim>\<open>Object.prototype\<close>); \<^verbatim>\<open>"Uncategorized"\<close> is in the category
  list exactly when some product of the snapshot carries the category \<^verbatim>\<open>"Uncategorized"\<close>
  itself, the empty categories being dropped; and every entry of a category list other than
  \<^verbatim>\<open>"All"\<close>, once selected, hides the product.
\<close>

theorem empty_category_product:
  assumes "p \<in> set productList" and "available p" and "category p = Some []"
  shows "((\<forall>q\<in>set (available_products productList).
             group_key q \<notin> set object_prototype_keys) \<longrightarrow>
          (\<exists>grouped items.
             productsGroupedByCategory (filteredProducts (available_products productList) ''All'')
               = Inr grouped
             \<and> (''Uncategorized'', items) \<in> set (Object_entries grouped) \<and> p \<in> set items))
       \<and> (''Uncategorized'' \<in> set (uniqueCategories productList)
            \<longleftrightarrow> (\<exists>q\<in>set productList. category q = Some ''Uncategorized''))
       \<and> (\<forall>c\<in>set (uniqueCategories productList'). c \<noteq> ''All'' \<longrightarrow>
            p \<notin> set (filteredProducts (available_products productList) c))"
proof -
  let ?fp = "filteredProducts (available_products productList) ''All''"
  have fp: "?fp = available_products productList"
    by (simp add: filteredProducts_def)
  have p_fp: "p \<in> set ?fp"
    using assms(1,2) unfolding fp by (simp add: available_products_def)
  have key: "group_key p = ''Uncategorized''"
    using assms(3) by (simp add: group_key_def)
  have part1: "\<exists>grouped items. productsGroupedByCategory ?fp = Inr grouped
        \<and> (''Uncategorized'', items) \<in> set (Object_entries grouped) \<and> p \<in> set items"
    if ok: "\<forall>q\<in>set (available_products productList). group_key q \<notin> set object_prototype_keys"
  proof -
    obtain g where g: "productsGroupedByCategory ?fp = Inr g"
      using ok grouped_succeeds[of ?fp] unfolding fp by blast
    have nonempty: "with_key ''Uncategorized'' ?fp \<noteq> []"
      using p_fp key by (auto simp: with_key_def filter_empty_conv)
    then have "map_of g ''Uncategorized'' = Some (with_key ''Uncategorized'' ?fp)"
      using grouped_lookup[OF g, of "''Uncategorized''"] by simp
    then have "(''Uncategorized'', with_key ''Uncategorized'' ?fp) \<in> set (Object_entries g)"
      by (simp add: set_Object_entries map_of_SomeD)
    moreover have "p \<in> set (with_key ''Uncategorized'' ?fp)"
      using p_fp key by (simp add: with_key_def)
    ultimately show ?thesis using g by blast
  qed
  have part2: "''Uncategorized'' \<in> set (uniqueCategories productList)
            \<longleftrightarrow> (\<exists>q\<in>set productList. category q = Some ''Uncategorized'')"
    by (simp add: set_uniqueCategories)
  have part3: "\<forall>c\<in>set (uniqueCategories productList'). c \<noteq> ''All'' \<longrightarrow>
            p \<notin> set (filteredProducts (available_products productList) c)"
    using assms(3) by (auto simp: set_uniqueCategories filteredProducts_def)
  from part1 part2 part3 show ?thesis by blast
qed

theorem empty_category_product_witness:
  "Bread \<in> set [Soup, Bread, Cake] \<and> available Bread \<and> category Bread = Some []
   \<and> productsGroupedByCategory (filteredProducts (available_products [Soup, Bread, Cake]) ''All'')
       = Inr [(''Starters'', [Soup]), (''Uncategorized'', [Bread])]
   \<and> uniqueCategories [Soup, Bread, Cake] = [''All'', ''Desserts'', ''Starters'']
   \<and> filteredProducts (available_products [Soup, Bread, Cake]) ''Starters'' = [Soup]"
proof -
  have h: "Bread \<in> set [Soup, Bread, Cake]" "available Bread" "category Bread = Some []"
    by (simp_all add: Bread_def)
  show ?thesis
    using h empty_category_product[OF h, of "[Soup, Bread, Cake]"]
    by (simp add: reducer_defs product_defs)
qed

text \<open>
  C10 as it is written does not hold: beside a product of category \<^verbatim>\<open>"Uncategorized"\<close>,
  the category list of a snapshot with an available product of empty category contains
  \<^verbatim>\<open>"Uncategorized"\<close>.
\<close>

theorem empty_category_product_counterexample:
  "Bread \<in> set [Bread, Water] \<and> available Bread \<and> category Bread = Some []
   \<and> uniqueCategories [Bread, Water] = [''All'', ''Uncategorized'']"
  by (simp add: uniqueCategories_def new_Set_def Set_add_def Bread_def Water_def)

end
